theory Spec2Isabelle
  imports Complex_Main
begin

section \<open>Ready Trader Go: order book, accounts and competitor risk checks\<close>

text \<open>
  A shallow embedding of the exchange core of Ready Trader Go
  (\<^verbatim>\<open>ready_trader_go/types.py\<close>, \<^verbatim>\<open>order_book.py\<close>, \<^verbatim>\<open>account.py\<close>,
  \<^verbatim>\<open>unhedged_lots.py\<close>, \<^verbatim>\<open>competitor.py\<close>).

  Conventions.
  \<^item> Python's unbounded integers are \<^typ>\<open>int\<close>; \<^verbatim>\<open>//\<close> and \<^verbatim>\<open>%\<close> are \<open>div\<close> and \<open>mod\<close>
    (both round towards minus infinity, the remainder takes the sign of the divisor).
  \<^item> No IEEE arithmetic is modelled. The fee rates and the ETF clamp are doubles that the
    code uses only in \<^verbatim>\<open>round(n * rate)\<close>: each is modelled by that function of \<open>n\<close>,
    of which nothing is assumed, so that every theorem holds for whatever the double
    arithmetic computes (for \<open>n\<close> within the range of a double; beyond it the conversion
    of \<open>n\<close> raises OverflowError, which is not modelled). The midpoint price, half the sum
    of two integers, is a rational. The frequency limiter, whose tests compare doubles
    within a relative tolerance, is not modelled.
  \<^item> Every exception the modelled code can raise is a value \<open>Inl e\<close> of a sum type.
  \<^item> Order objects are shared between the book, the competitor and the caller, so they
    live in an explicit store indexed by reference.
\<close>

subsection \<open>types.py\<close>

datatype Instrument = FUTURE | ETF

datatype Side = SELL | BUY

datatype Lifespan = FILL_AND_KILL | GOOD_FOR_DAY

datatype py_error = KeyError | IndexError | TypeError | AttributeError | ZeroDivisionError

subsection \<open>Python built-ins\<close>

text \<open>
  \<^verbatim>\<open>round(x)\<close> of a float, given as the rational number the float holds: to the nearest
  integer, ties to the even one.
\<close>

definition py_round :: "rat \<Rightarrow> int" where
  "py_round x = (let f = \<lfloor>x\<rfloor>; d = x - of_int f in
     if d < 1 / 2 then f else if 1 / 2 < d then f + 1 else if even f then f else f + 1)"


text \<open>
  \<^verbatim>\<open>bisect.bisect(xs, x)\<close> (that is \<^verbatim>\<open>bisect_right\<close>) and \<^verbatim>\<open>insort_left\<close> of the
  standard library, on the sorted lists the callers keep: the insertion point after
  (respectively before) the entries equal to \<open>x\<close>.
\<close>

definition bisect :: "int list \<Rightarrow> int \<Rightarrow> nat" where
  "bisect xs x = length (takeWhile (\<lambda>y. y \<le> x) xs)"

definition insort_left :: "int list \<Rightarrow> int \<Rightarrow> int list" where
  "insort_left xs x = takeWhile (\<lambda>y. y < x) xs @ x # dropWhile (\<lambda>y. y < x) xs"

text \<open>\<^verbatim>\<open>xs.pop(i)\<close>: negative indices count from the end, out of range raises.\<close>

definition pop_at :: "int list \<Rightarrow> int \<Rightarrow> py_error + int list" where
  "pop_at xs i =
     (let n = int (length xs); j = (if i < 0 then n + i else i)
      in if 0 \<le> j \<and> j < n then Inr (take (nat j) xs @ drop (Suc (nat j)) xs)
         else Inl IndexError)"

subsection \<open>account.py\<close>

record CompetitorAccount =
  account_balance :: int
  buy_volume :: int
  etf_clamp :: "rat \<Rightarrow> int"
  etf_position :: int
  future_position :: int
  max_drawdown :: rat
  max_profit :: rat
  profit_or_loss :: rat
  sell_volume :: int
  acct_tick_size :: int
  acct_total_fees :: int


text \<open>
  The field \<open>etf_clamp\<close> stands for the double of that name by the one computation it
  enters: \<open>etf_clamp a x\<close> is \<^verbatim>\<open>round(self.etf_clamp * x)\<close> as the double arithmetic
  yields it. The clamp width of \<^verbatim>\<open>CompetitorAccount.update\<close> is
  \<^verbatim>\<open>delta = round(self.etf_clamp * future_price); delta -= delta % self.tick_size\<close>.
\<close>

definition clamp_delta :: "CompetitorAccount \<Rightarrow> rat \<Rightarrow> int" where
  "clamp_delta a future_price =
     (let delta = etf_clamp a future_price
      in delta - delta mod acct_tick_size a)"

text \<open>
  \<^verbatim>\<open>CompetitorAccount.update\<close>. The prices are integers on every path but the hedge
  path of the competitor, which can pass \<^verbatim>\<open>None\<close> or a midpoint for either price, so the
  prices are optional rationals: \<^verbatim>\<open>None\<close> raises TypeError where it is first used in
  arithmetic or in a comparison, and a zero tick size raises ZeroDivisionError at the
  \<^verbatim>\<open>%\<close>. Every exception is raised before the first assignment to the account. With
  integer prices all the arithmetic after the rounded product is on integers.
\<close>

definition update ::
  "CompetitorAccount \<Rightarrow> rat option \<Rightarrow> rat option \<Rightarrow> py_error + CompetitorAccount" where
  "update a future_price etf_price =
     (case future_price of None \<Rightarrow> Inl TypeError
      | Some fp \<Rightarrow>
        if acct_tick_size a = 0 then Inl ZeroDivisionError
        else (case etf_price of None \<Rightarrow> Inl TypeError
          | Some ep \<Rightarrow>
            let delta = clamp_delta a fp;
                min_price = fp - of_int delta;
                max_price = fp + of_int delta;
                clamped = (if ep < min_price then min_price
                           else if ep > max_price then max_price else ep);
                pnl = of_int (account_balance a) + of_int (future_position a) * fp
                      + of_int (etf_position a) * clamped;
                a1 = a\<lparr>profit_or_loss := pnl\<rparr>;
                a2 = (if profit_or_loss a1 > max_profit a1
                      then a1\<lparr>max_profit := profit_or_loss a1\<rparr> else a1)
            in Inr (if max_profit a2 - profit_or_loss a2 > max_drawdown a2
                    then a2\<lparr>max_drawdown := max_profit a2 - profit_or_loss a2\<rparr> else a2)))"

text \<open>
  The clip of the specification: \<open>x\<close> limited to the band from \<open>lo\<close> to \<open>hi\<close>.
\<close>

definition clip :: "rat \<Rightarrow> rat \<Rightarrow> rat \<Rightarrow> rat" where
  "clip x lo hi = (if x < lo then lo else if hi < x then hi else x)"

subsection \<open>unhedged\_lots.py\<close>

definition MAX_UNHEDGED_LOTS :: int where
  "MAX_UNHEDGED_LOTS = 10"

definition UNHEDGED_LOTS_TIME_LIMIT :: int where
  "UNHEDGED_LOTS_TIME_LIMIT = 60"

text \<open>
  A timer handle of the event loop is pending until it is cancelled. The calls the
  monitor makes on the event loop (\<^verbatim>\<open>call_later\<close>, \<^verbatim>\<open>TimerHandle.cancel\<close>) are
  recorded, in order, in \<open>loop_calls\<close>.
\<close>

datatype TimerHandle = Pending | Cancelled

datatype loop_call = CallLater int | CancelTimer

record UnhedgedLots =
  relative_position :: int
  timer_handle :: "TimerHandle option"
  loop_calls :: "loop_call list"

definition new_UnhedgedLots :: UnhedgedLots where
  "new_UnhedgedLots = \<lparr>relative_position = 0, timer_handle = None, loop_calls = []\<rparr>"

text \<open>\<^verbatim>\<open>self.timer_handle.cancel()\<close>: AttributeError when there is no handle.\<close>

definition cancel_timer :: "UnhedgedLots \<Rightarrow> py_error + UnhedgedLots" where
  "cancel_timer u =
     (case timer_handle u of None \<Rightarrow> Inl AttributeError
      | Some h \<Rightarrow> Inr (u\<lparr>timer_handle := Some Cancelled,
                          loop_calls := loop_calls u @ [CancelTimer]\<rparr>))"

definition start_timer :: "UnhedgedLots \<Rightarrow> UnhedgedLots" where
  "start_timer u = u\<lparr>timer_handle := Some Pending,
                     loop_calls := loop_calls u @ [CallLater UNHEDGED_LOTS_TIME_LIMIT]\<rparr>"

definition apply_position_delta :: "UnhedgedLots \<Rightarrow> int \<Rightarrow> py_error + UnhedgedLots" where
  "apply_position_delta u delta =
     (let rel = relative_position u; new_relative_position = rel + delta in
      if delta > 0 then
        (case (if rel < - MAX_UNHEDGED_LOTS \<and> - MAX_UNHEDGED_LOTS \<le> new_relative_position
               then cancel_timer u else Inr u) of
           Inl e \<Rightarrow> Inl e
         | Inr u1 \<Rightarrow>
             let u2 = (if new_relative_position > MAX_UNHEDGED_LOTS \<and> MAX_UNHEDGED_LOTS \<ge> rel
                       then start_timer u1 else u1)
             in Inr (u2\<lparr>relative_position := new_relative_position\<rparr>))
      else if delta < 0 then
        (case (if rel > MAX_UNHEDGED_LOTS \<and> MAX_UNHEDGED_LOTS \<ge> new_relative_position
               then cancel_timer u else Inr u) of
           Inl e \<Rightarrow> Inl e
         | Inr u1 \<Rightarrow>
             let u2 = (if new_relative_position < - MAX_UNHEDGED_LOTS \<and> - MAX_UNHEDGED_LOTS \<le> rel
                       then start_timer u1 else u1)
             in Inr (u2\<lparr>relative_position := new_relative_position\<rparr>))
      else Inr (u\<lparr>relative_position := new_relative_position\<rparr>))"

text \<open>The band of the specification: at most ten lots on either side.\<close>

definition in_band :: "int \<Rightarrow> bool" where
  "in_band rel = (- MAX_UNHEDGED_LOTS \<le> rel \<and> rel \<le> MAX_UNHEDGED_LOTS)"

text \<open>
  The monitor reaches only states in which a position outside the band has a timer
  handle; this holds initially and every call keeps it.
\<close>

definition handle_present :: "UnhedgedLots \<Rightarrow> bool" where
  "handle_present u = (in_band (relative_position u) \<or> timer_handle u \<noteq> None)"

text \<open>
  One delta carries the position from beyond one edge of the band to beyond the other.
\<close>

definition crosses_band :: "int \<Rightarrow> int \<Rightarrow> bool" where
  "crosses_band old new = ((\<not> in_band old \<and> \<not> in_band new) \<and> (old < 0) \<noteq> (new < 0))"

subsection \<open>order\_book.py\<close>

text \<open>
  The listener of an order is the competitor that inserted it or the market-events
  reader. The book calls its listeners back and fires the \<^verbatim>\<open>trade_occurred\<close> signal;
  the model returns these calls, in order, as a list. The timestamp \<^verbatim>\<open>now\<close> is only
  handed on to the callbacks and is left out.
\<close>

datatype Listener = CompetitorListener string | MarketEventsListener

record Order =
  client_order_id :: int
  instrument :: Instrument
  lifespan :: Lifespan
  listener :: "Listener option"
  price :: int
  remaining_volume :: int
  side :: Side
  total_fees :: int
  volume :: int

type_synonym store = "nat \<Rightarrow> Order"

datatype callback =
    OrderAmended Listener nat int
  | OrderCancelled Listener nat int
  | OrderPlaced Listener nat
  | OrderFilled Listener nat int int int
  | TradeOccurred

text \<open>
  \<open>ask_prices\<close> holds the negated ask prices, so that the best price of either side is
  the last entry of its list. \<open>levels\<close> and \<open>total_volumes\<close> are keyed by price alone.
  The fields \<open>maker_fee\<close> and \<open>taker_fee\<close> stand for the doubles of those names by
  the one computation they enter: \<open>maker_fee b n\<close> is
  \<^verbatim>\<open>round(n * self.maker_fee)\<close> for the integer \<open>n = best_price * volume\<close>, as the double
  arithmetic yields it.
\<close>

record OrderBook =
  book_instrument :: Instrument
  maker_fee :: "int \<Rightarrow> int"
  taker_fee :: "int \<Rightarrow> int"
  ask_prices :: "int list"
  ask_ticks :: "int \<rightharpoonup> int"
  bid_prices :: "int list"
  bid_ticks :: "int \<rightharpoonup> int"
  last_traded_price :: "int option"
  levels :: "int \<rightharpoonup> nat list"
  total_volumes :: "int \<rightharpoonup> int"

definition new_OrderBook :: "Instrument \<Rightarrow> (int \<Rightarrow> int) \<Rightarrow> (int \<Rightarrow> int) \<Rightarrow> OrderBook" where
  "new_OrderBook ins maker taker =
     \<lparr>book_instrument = ins, maker_fee = maker, taker_fee = taker, ask_prices = [],
      ask_ticks = Map.empty, bid_prices = [], bid_ticks = Map.empty,
      last_traded_price = None, levels = Map.empty, total_volumes = Map.empty\<rparr>"

text \<open>\<^verbatim>\<open>if order.listener: order.listener.on_...(...)\<close>\<close>

definition notify :: "Order \<Rightarrow> (Listener \<Rightarrow> callback) \<Rightarrow> callback list" where
  "notify ord cb = (case listener ord of None \<Rightarrow> [] | Some l \<Rightarrow> [cb l])"

definition remove_volume_from_level ::
  "OrderBook \<Rightarrow> int \<Rightarrow> int \<Rightarrow> Side \<Rightarrow> py_error + OrderBook" where
  "remove_volume_from_level b p vol sd =
     (case total_volumes b p of None \<Rightarrow> Inl KeyError
      | Some t \<Rightarrow>
          if t = vol then
            (case levels b p of None \<Rightarrow> Inl KeyError
             | Some q \<Rightarrow>
                 let b1 = b\<lparr>levels := (levels b)(p := None),
                            total_volumes := (total_volumes b)(p := None)\<rparr>
                 in if sd = SELL then
                      (case pop_at (ask_prices b1) (int (bisect (ask_prices b1) (- p)) - 1) of
                         Inl e \<Rightarrow> Inl e
                       | Inr xs \<Rightarrow> Inr (b1\<lparr>ask_prices := xs\<rparr>))
                    else
                      (case pop_at (bid_prices b1) (int (bisect (bid_prices b1) p) - 1) of
                         Inl e \<Rightarrow> Inl e
                       | Inr xs \<Rightarrow> Inr (b1\<lparr>bid_prices := xs\<rparr>)))
          else Inr (b\<lparr>total_volumes := (total_volumes b)(p \<mapsto> t - vol)\<rparr>))"

definition amend ::
  "store \<Rightarrow> OrderBook \<Rightarrow> nat \<Rightarrow> int \<Rightarrow> py_error + (store \<times> OrderBook \<times> callback list)" where
  "amend s b r new_volume =
     (let ord = s r in
      if remaining_volume ord > 0 then
        (let fill_volume = volume ord - remaining_volume ord;
             diff = volume ord - (if new_volume < fill_volume then fill_volume else new_volume)
         in case remove_volume_from_level b (price ord) diff (side ord) of
              Inl e \<Rightarrow> Inl e
            | Inr b' \<Rightarrow>
                let ord' = ord\<lparr>volume := volume ord - diff,
                               remaining_volume := remaining_volume ord - diff\<rparr>
                in Inr (s(r := ord'), b', notify ord' (\<lambda>l. OrderAmended l r diff)))
      else Inr (s, b, []))"

definition cancel ::
  "store \<Rightarrow> OrderBook \<Rightarrow> nat \<Rightarrow> py_error + (store \<times> OrderBook \<times> callback list)" where
  "cancel s b r =
     (let ord = s r in
      if remaining_volume ord > 0 then
        (case remove_volume_from_level b (price ord) (remaining_volume ord) (side ord) of
           Inl e \<Rightarrow> Inl e
         | Inr b' \<Rightarrow>
             let remaining = remaining_volume ord;
                 ord' = ord\<lparr>remaining_volume := 0\<rparr>
             in Inr (s(r := ord'), b', notify ord' (\<lambda>l. OrderCancelled l r remaining)))
      else Inr (s, b, []))"

definition place ::
  "store \<Rightarrow> OrderBook \<Rightarrow> nat \<Rightarrow> py_error + (OrderBook \<times> callback list)" where
  "place s b r =
     (let ord = s r; p = price ord;
          b1 = (if levels b p = None then
                  (let b0 = b\<lparr>levels := (levels b)(p \<mapsto> []),
                             total_volumes := (total_volumes b)(p \<mapsto> 0)\<rparr>
                   in if side ord = SELL
                      then b0\<lparr>ask_prices := insort_left (ask_prices b0) (- p)\<rparr>
                      else b0\<lparr>bid_prices := insort_left (bid_prices b0) p\<rparr>)
                else b)
      in case levels b1 p of None \<Rightarrow> Inl KeyError
         | Some q \<Rightarrow>
             (case total_volumes b1 p of None \<Rightarrow> Inl KeyError
              | Some t \<Rightarrow>
                  Inr (b1\<lparr>levels := (levels b1)(p \<mapsto> q @ [r]),
                          total_volumes := (total_volumes b1)(p \<mapsto> t + remaining_volume ord)\<rparr>,
                       notify ord (\<lambda>l. OrderPlaced l r))))"

text \<open>
  The inner loop of \<^verbatim>\<open>trade_level\<close>:
  \<^verbatim>\<open>while order_queue[0].remaining_volume == 0: order_queue.popleft()\<close>.
  It raises IndexError when it runs off the end of the queue.
\<close>

fun skip_filled :: "store \<Rightarrow> nat list \<Rightarrow> py_error + nat list" where
  "skip_filled s [] = Inl IndexError"
| "skip_filled s (r # q) =
     (if remaining_volume (s r) = 0 then skip_filled s q else Inr (r # q))"

lemma skip_filled_dropWhile:
  "skip_filled s q = Inr q' \<Longrightarrow>
     q' = dropWhile (\<lambda>r. remaining_volume (s r) = 0) q \<and> q' \<noteq> []"
  by (induction q) (auto split: if_splits)

text \<open>
  The outer loop of \<^verbatim>\<open>trade_level\<close>, over the local variables \<^verbatim>\<open>remaining\<close>,
  \<^verbatim>\<open>total_volume\<close> and the queue of the level. Each round either uses up the aggressor
  or empties the passive order at the head of the queue, which the next round pops.
\<close>

function match_queue ::
  "(int \<Rightarrow> int) \<Rightarrow> int \<Rightarrow> store \<Rightarrow> int \<Rightarrow> int \<Rightarrow> nat list \<Rightarrow>
     py_error + (store \<times> int \<times> int \<times> nat list \<times> callback list)" where
  "match_queue maker best_price s remaining total_volume order_queue =
     (if remaining > 0 \<and> total_volume > 0 then
        (case skip_filled s order_queue of
           Inl e \<Rightarrow> Inl e
         | Inr q \<Rightarrow>
             let pr = hd q;
                 passive = s pr;
                 vol = (if remaining < remaining_volume passive then remaining
                        else remaining_volume passive);
                 fee = maker (best_price * vol);
                 passive' = passive\<lparr>remaining_volume := remaining_volume passive - vol,
                                    total_fees := total_fees passive + fee\<rparr>
             in (case match_queue maker best_price (s(pr := passive')) (remaining - vol)
                        (total_volume - vol) q of
                   Inl e \<Rightarrow> Inl e
                 | Inr (s', remaining', total', q', cbs) \<Rightarrow>
                     Inr (s', remaining', total', q',
                          notify passive' (\<lambda>l. OrderFilled l pr best_price vol fee) @ cbs)))
      else Inr (s, remaining, total_volume, order_queue, []))"
  by pat_completeness auto
termination
proof (relation "measure (\<lambda>(maker, best_price, s, remaining, total_volume, q).
          if remaining > 0
          then Suc (length (dropWhile (\<lambda>r. remaining_volume (s r) = 0) q)) else 0)",
       goal_cases)
  case 1
  show ?case by simp
next
  case (2 maker best_price s remaining total_volume order_queue q hq pa vol fee pa')
  from skip_filled_dropWhile [OF 2(2)]
  have q: "q = dropWhile (\<lambda>r. remaining_volume (s r) = 0) order_queue" "q \<noteq> []"
    by blast+
  from q(2) obtain r rest where qq: "q = r # rest" by (cases q) auto
  have hq: "hq = r" using 2(3) qq by simp
  show ?case
  proof (cases "remaining - vol > 0")
    case False
    with 2(1) show ?thesis by simp
  next
    case True
    then have "vol = remaining_volume pa" using 2(5) by (auto split: if_splits)
    then have z: "remaining_volume ((s(hq := pa')) r) = 0"
      using 2(7) hq by simp
    have "length (dropWhile (\<lambda>x. remaining_volume ((s(hq := pa')) x) = 0) q)
            \<le> length rest"
      unfolding qq using z by (simp add: length_dropWhile_le)
    moreover have "length (dropWhile (\<lambda>r. remaining_volume (s r) = 0) order_queue)
            = Suc (length rest)"
      using q(1) qq by (metis length_Cons)
    ultimately show ?thesis using True 2(1) by simp
  qed
qed

declare match_queue.simps [simp del]

text \<open>One round of the loop, and its exits.\<close>

definition fill_passive :: "(int \<Rightarrow> int) \<Rightarrow> int \<Rightarrow> int \<Rightarrow> Order \<Rightarrow> Order" where
  "fill_passive maker best_price remaining passive =
     (let vol = (if remaining < remaining_volume passive then remaining
                 else remaining_volume passive)
      in passive\<lparr>remaining_volume := remaining_volume passive - vol,
                  total_fees := total_fees passive + maker (best_price * vol)\<rparr>)"

definition fill_volume_of :: "int \<Rightarrow> Order \<Rightarrow> int" where
  "fill_volume_of remaining passive =
     (if remaining < remaining_volume passive then remaining else remaining_volume passive)"

lemma match_queue_stop:
  "\<not> (remaining > 0 \<and> total_volume > 0) \<Longrightarrow>
   match_queue maker best_price s remaining total_volume q = Inr (s, remaining, total_volume, q, [])"
  by (subst match_queue.simps) auto

lemma match_queue_error:
  "remaining > 0 \<Longrightarrow> total_volume > 0 \<Longrightarrow> skip_filled s q = Inl e \<Longrightarrow>
   match_queue maker best_price s remaining total_volume q = Inl e"
  by (subst match_queue.simps) simp

lemma match_queue_step:
  "remaining > 0 \<Longrightarrow> total_volume > 0 \<Longrightarrow> skip_filled s q = Inr (pr # rest) \<Longrightarrow>
   match_queue maker best_price s remaining total_volume q =
     (case match_queue maker best_price
             (s(pr := fill_passive maker best_price remaining (s pr)))
             (remaining - fill_volume_of remaining (s pr))
             (total_volume - fill_volume_of remaining (s pr)) (pr # rest) of
        Inl e \<Rightarrow> Inl e
      | Inr (s', remaining', total', q', cbs) \<Rightarrow>
          Inr (s', remaining', total', q',
               notify (fill_passive maker best_price remaining (s pr))
                 (\<lambda>l. OrderFilled l pr best_price (fill_volume_of remaining (s pr))
                        (maker (best_price * fill_volume_of remaining (s pr)))) @ cbs))"
  by (subst match_queue.simps)
     (simp only: Let_def fill_passive_def fill_volume_of_def list.sel sum.case simp_thms if_True)

lemma match_queue_cases:
  assumes "match_queue maker best_price s remaining total_volume q = Inr res"
  obtains (stop) "\<not> (remaining > 0 \<and> total_volume > 0)" "res = (s, remaining, total_volume, q, [])"
  | (step) pr rest s' remaining' total' q' cbs where
      "remaining > 0" "total_volume > 0" "skip_filled s q = Inr (pr # rest)"
      "match_queue maker best_price
             (s(pr := fill_passive maker best_price remaining (s pr)))
             (remaining - fill_volume_of remaining (s pr))
             (total_volume - fill_volume_of remaining (s pr)) (pr # rest)
         = Inr (s', remaining', total', q', cbs)"
      "res = (s', remaining', total', q',
               notify (fill_passive maker best_price remaining (s pr))
                 (\<lambda>l. OrderFilled l pr best_price (fill_volume_of remaining (s pr))
                        (maker (best_price * fill_volume_of remaining (s pr)))) @ cbs)"
proof (cases "remaining > 0 \<and> total_volume > 0")
  case False
  with assms stop show ?thesis by (simp add: match_queue_stop)
next
  case True
  show ?thesis
  proof (cases "skip_filled s q")
    case (Inl e)
    with assms True show ?thesis by (simp add: match_queue_error)
  next
    case (Inr q1)
    with skip_filled_dropWhile obtain pr rest where q1: "q1 = pr # rest"
      by (cases q1) auto
    with assms True Inr step show ?thesis
      by (auto simp add: match_queue_step split: sum.splits)
  qed
qed

lemma match_queue_induct:
  assumes step: "\<And>maker best_price s remaining total_volume q.
     (\<And>pr rest. remaining > 0 \<Longrightarrow> total_volume > 0 \<Longrightarrow> skip_filled s q = Inr (pr # rest) \<Longrightarrow>
        P maker best_price (s(pr := fill_passive maker best_price remaining (s pr)))
          (remaining - fill_volume_of remaining (s pr))
          (total_volume - fill_volume_of remaining (s pr)) (pr # rest))
     \<Longrightarrow> P maker best_price s remaining total_volume q"
  shows "P maker best_price s remaining total_volume q"
proof (induction maker best_price s remaining total_volume q rule: match_queue.induct)
  case (1 maker best_price s remaining total_volume order_queue)
  show ?case
  proof (rule step)
    fix pr rest
    assume a: "remaining > 0" "total_volume > 0" "skip_filled s order_queue = Inr (pr # rest)"
    from a(1,2) have c: "remaining > 0 \<and> total_volume > 0" by simp
    from 1 [OF c a(3) refl refl refl refl refl]
    show "P maker best_price (s(pr := fill_passive maker best_price remaining (s pr)))
          (remaining - fill_volume_of remaining (s pr))
          (total_volume - fill_volume_of remaining (s pr)) (pr # rest)"
      by (simp only: fill_passive_def fill_volume_of_def Let_def list.sel)
  qed
qed

lemma match_queue_exit:
  "match_queue maker best_price s remaining total_volume q = Inr (s', remaining', total', q', cbs)
     \<Longrightarrow> remaining' \<le> 0 \<or> total' \<le> 0"
proof (induction maker best_price s remaining total_volume q
       arbitrary: s' remaining' total' q' cbs rule: match_queue_induct)
  case (1 maker best_price s remaining total_volume q)
  from 1(2) show ?case
  proof (cases rule: match_queue_cases)
    case stop
    then show ?thesis by auto
  next
    case (step pr rest s1 remaining1 total1 q1 cbs1)
    from 1(1) [OF step(1,2,3,4)] step(5) show ?thesis by simp
  qed
qed

definition trade_level ::
  "store \<Rightarrow> OrderBook \<Rightarrow> nat \<Rightarrow> int \<Rightarrow> py_error + (store \<times> OrderBook \<times> callback list)" where
  "trade_level s b r best_price =
     (case levels b best_price of None \<Rightarrow> Inl KeyError
      | Some order_queue \<Rightarrow>
        (case total_volumes b best_price of None \<Rightarrow> Inl KeyError
         | Some total_volume \<Rightarrow>
           (case match_queue (maker_fee b) best_price s (remaining_volume (s r)) total_volume
                   order_queue of
              Inl e \<Rightarrow> Inl e
            | Inr (s1, remaining, total', q', cbs) \<Rightarrow>
                let b1 = b\<lparr>levels := (levels b)(best_price \<mapsto> q'),
                           total_volumes := (total_volumes b)(best_price \<mapsto> total')\<rparr>;
                    traded_volume_at_this_level = remaining_volume (s1 r) - remaining;
                    b2 = (if side (s1 r) = BUY
                          then b1\<lparr>ask_ticks := (ask_ticks b1)(best_price \<mapsto>
                                  (case ask_ticks b1 best_price of None \<Rightarrow> 0 | Some v \<Rightarrow> v)
                                  + traded_volume_at_this_level)\<rparr>
                          else b1\<lparr>bid_ticks := (bid_ticks b1)(best_price \<mapsto>
                                  (case bid_ticks b1 best_price of None \<Rightarrow> 0 | Some v \<Rightarrow> v)
                                  + traded_volume_at_this_level)\<rparr>);
                    fee = taker_fee b (best_price * traded_volume_at_this_level);
                    ord' = (s1 r)\<lparr>remaining_volume := remaining,
                                  total_fees := total_fees (s1 r) + fee\<rparr>
                in Inr (s1(r := ord'), b2\<lparr>last_traded_price := Some best_price\<rparr>,
                        cbs @ notify ord'
                                (\<lambda>l. OrderFilled l r best_price traded_volume_at_this_level fee)
                            @ [TradeOccurred]))))"

lemma trade_level_prices:
  "trade_level s b r best_price = Inr (s1, b1, cbs) \<Longrightarrow>
     bid_prices b1 = bid_prices b \<and> ask_prices b1 = ask_prices b"
  by (auto simp add: trade_level_def Let_def split: option.splits sum.splits prod.splits if_splits)

lemma trade_level_exit:
  "trade_level s b r best_price = Inr (s1, b1, cbs) \<Longrightarrow>
     \<exists>t. total_volumes b1 best_price = Some t \<and> (remaining_volume (s1 r) \<le> 0 \<or> t \<le> 0)"
  by (auto simp add: trade_level_def Let_def split: option.splits sum.splits prod.splits if_splits
      dest: match_queue_exit)

text \<open>
  The loop test of \<^verbatim>\<open>trade_ask\<close> (\<open>sd = SELL\<close>, the level is a bid) and of
  \<^verbatim>\<open>trade_bid\<close> (\<open>sd = BUY\<close>, the level is an ask); the lookup is evaluated last.
\<close>

definition level_crosses :: "store \<Rightarrow> OrderBook \<Rightarrow> nat \<Rightarrow> Side \<Rightarrow> int \<Rightarrow> py_error + bool" where
  "level_crosses s b r sd best =
     (if remaining_volume (s r) > 0
         \<and> (if sd = SELL then best \<ge> price (s r) else best \<le> price (s r)) then
        (case total_volumes b best of None \<Rightarrow> Inl KeyError | Some t \<Rightarrow> Inr (t > 0))
      else Inr False)"

text \<open>
  The loop of \<^verbatim>\<open>trade_ask\<close>. When the level is emptied it is deleted and the walk goes
  on at the next best bid; otherwise the test is evaluated again.
\<close>

function trade_ask_loop ::
  "store \<Rightarrow> OrderBook \<Rightarrow> nat \<Rightarrow> int \<Rightarrow> py_error + (store \<times> OrderBook \<times> callback list)" where
  "trade_ask_loop s b r best_bid =
     (case level_crosses s b r SELL best_bid of
        Inl e \<Rightarrow> Inl e
      | Inr False \<Rightarrow> Inr (s, b, [])
      | Inr True \<Rightarrow>
         (case trade_level s b r best_bid of
            Inl e \<Rightarrow> Inl e
          | Inr (s1, b1, cbs) \<Rightarrow>
             (case total_volumes b1 best_bid of
                None \<Rightarrow> Inl KeyError
              | Some t1 \<Rightarrow>
                 if t1 = 0 then
                   (case levels b1 best_bid of
                      None \<Rightarrow> Inl KeyError
                    | Some q \<Rightarrow>
                       if bid_prices b1 = [] then Inl IndexError
                       else
                         let b2 = b1\<lparr>levels := (levels b1)(best_bid := None),
                                    total_volumes := (total_volumes b1)(best_bid := None),
                                    bid_prices := butlast (bid_prices b1)\<rparr>
                         in if bid_prices b2 = [] then Inr (s1, b2, cbs)
                            else (case trade_ask_loop s1 b2 r (last (bid_prices b2)) of
                                    Inl e \<Rightarrow> Inl e
                                  | Inr (s2, b3, cbs2) \<Rightarrow> Inr (s2, b3, cbs @ cbs2)))
                 else (case trade_ask_loop s1 b1 r best_bid of
                         Inl e \<Rightarrow> Inl e
                       | Inr (s2, b3, cbs2) \<Rightarrow> Inr (s2, b3, cbs @ cbs2)))))"
  by pat_completeness auto
termination
proof (relation "measure (\<lambda>(s, b, r, best_bid).
          2 * length (bid_prices b) + (if level_crosses s b r SELL best_bid = Inr True then 1 else 0))",
       goal_cases)
  case 1
  show ?case by simp
next
  case (2 s b r best_bid x1 x2 s1 x3 b1 cbs t1 q b2)
  from 2(3,4,5) have tl: "trade_level s b r best_bid = Inr (s1, b1, cbs)" by auto
  have "bid_prices b1 = bid_prices b"
    using trade_level_prices [OF tl] by simp
  with 2 have "length (bid_prices b2) < length (bid_prices b)"
    by (auto simp add: Let_def)
  moreover from 2 have "level_crosses s b r SELL best_bid = Inr True"
    by auto
  ultimately show ?case by simp
next
  case (3 s b r best_bid x1 x2 s1 x3 b1 cbs t1)
  from 3(3,4,5) have tl: "trade_level s b r best_bid = Inr (s1, b1, cbs)" by auto
  have "bid_prices b1 = bid_prices b"
    using trade_level_prices [OF tl] by simp
  moreover have "level_crosses s1 b1 r SELL best_bid \<noteq> Inr True"
    using trade_level_exit [OF tl] 3(6,7)
    by (auto simp add: level_crosses_def)
  moreover from 3 have "level_crosses s b r SELL best_bid = Inr True"
    by auto
  ultimately show ?case by simp
qed

text \<open>The loop of \<^verbatim>\<open>trade_bid\<close>, the mirror image over the negated ask prices.\<close>

function trade_bid_loop ::
  "store \<Rightarrow> OrderBook \<Rightarrow> nat \<Rightarrow> int \<Rightarrow> py_error + (store \<times> OrderBook \<times> callback list)" where
  "trade_bid_loop s b r best_ask =
     (case level_crosses s b r BUY best_ask of
        Inl e \<Rightarrow> Inl e
      | Inr False \<Rightarrow> Inr (s, b, [])
      | Inr True \<Rightarrow>
         (case trade_level s b r best_ask of
            Inl e \<Rightarrow> Inl e
          | Inr (s1, b1, cbs) \<Rightarrow>
             (case total_volumes b1 best_ask of
                None \<Rightarrow> Inl KeyError
              | Some t1 \<Rightarrow>
                 if t1 = 0 then
                   (case levels b1 best_ask of
                      None \<Rightarrow> Inl KeyError
                    | Some q \<Rightarrow>
                       if ask_prices b1 = [] then Inl IndexError
                       else
                         let b2 = b1\<lparr>levels := (levels b1)(best_ask := None),
                                    total_volumes := (total_volumes b1)(best_ask := None),
                                    ask_prices := butlast (ask_prices b1)\<rparr>
                         in if ask_prices b2 = [] then Inr (s1, b2, cbs)
                            else (case trade_bid_loop s1 b2 r (- last (ask_prices b2)) of
                                    Inl e \<Rightarrow> Inl e
                                  | Inr (s2, b3, cbs2) \<Rightarrow> Inr (s2, b3, cbs @ cbs2)))
                 else (case trade_bid_loop s1 b1 r best_ask of
                         Inl e \<Rightarrow> Inl e
                       | Inr (s2, b3, cbs2) \<Rightarrow> Inr (s2, b3, cbs @ cbs2)))))"
  by pat_completeness auto
termination
proof (relation "measure (\<lambda>(s, b, r, best_ask).
          2 * length (ask_prices b) + (if level_crosses s b r BUY best_ask = Inr True then 1 else 0))",
       goal_cases)
  case 1
  show ?case by simp
next
  case (2 s b r best_ask x1 x2 s1 x3 b1 cbs t1 q b2)
  from 2(3,4,5) have tl: "trade_level s b r best_ask = Inr (s1, b1, cbs)" by auto
  have "ask_prices b1 = ask_prices b"
    using trade_level_prices [OF tl] by simp
  with 2 have "length (ask_prices b2) < length (ask_prices b)"
    by (auto simp add: Let_def)
  moreover from 2 have "level_crosses s b r BUY best_ask = Inr True"
    by auto
  ultimately show ?case by simp
next
  case (3 s b r best_ask x1 x2 s1 x3 b1 cbs t1)
  from 3(3,4,5) have tl: "trade_level s b r best_ask = Inr (s1, b1, cbs)" by auto
  have "ask_prices b1 = ask_prices b"
    using trade_level_prices [OF tl] by simp
  moreover have "level_crosses s1 b1 r BUY best_ask \<noteq> Inr True"
    using trade_level_exit [OF tl] 3(6,7)
    by (auto simp add: level_crosses_def)
  moreover from 3 have "level_crosses s b r BUY best_ask = Inr True"
    by auto
  ultimately show ?case by simp
qed

declare trade_ask_loop.simps [simp del] trade_bid_loop.simps [simp del]

text \<open>
  \<^verbatim>\<open>trade_ask\<close> and \<^verbatim>\<open>trade_bid\<close> read the best price with index \<open>-1\<close>, which raises on
  an empty side.
\<close>

definition trade_ask ::
  "store \<Rightarrow> OrderBook \<Rightarrow> nat \<Rightarrow> py_error + (store \<times> OrderBook \<times> callback list)" where
  "trade_ask s b r =
     (if bid_prices b = [] then Inl IndexError
      else trade_ask_loop s b r (last (bid_prices b)))"

definition trade_bid ::
  "store \<Rightarrow> OrderBook \<Rightarrow> nat \<Rightarrow> py_error + (store \<times> OrderBook \<times> callback list)" where
  "trade_bid s b r =
     (if ask_prices b = [] then Inl IndexError
      else trade_bid_loop s b r (- last (ask_prices b)))"

text \<open>
  \<^verbatim>\<open>OrderBook.insert\<close>. The test of the buy branch compares the price with the stored
  (negated) ask, as the source does; \<^verbatim>\<open>trade_bid\<close> then compares with the ask itself.
\<close>

definition insert_order ::
  "store \<Rightarrow> OrderBook \<Rightarrow> nat \<Rightarrow> py_error + (store \<times> OrderBook \<times> callback list)" where
  "insert_order s b r =
     (case (if side (s r) = SELL \<and> bid_prices b \<noteq> [] \<and> price (s r) \<le> last (bid_prices b)
            then trade_ask s b r
            else if side (s r) = BUY \<and> ask_prices b \<noteq> [] \<and> price (s r) \<ge> last (ask_prices b)
            then trade_bid s b r
            else Inr (s, b, [])) of
        Inl e \<Rightarrow> Inl e
      | Inr (s1, b1, cbs) \<Rightarrow>
          if remaining_volume (s1 r) > 0 then
            (if lifespan (s1 r) = FILL_AND_KILL then
               (let remaining = remaining_volume (s1 r);
                    ord' = (s1 r)\<lparr>remaining_volume := 0\<rparr>
                in Inr (s1(r := ord'), b1,
                        cbs @ notify ord' (\<lambda>l. OrderCancelled l r remaining)))
             else
               (case place s1 b1 r of
                  Inl e \<Rightarrow> Inl e
                | Inr (b2, cbs2) \<Rightarrow> Inr (s1, b2, cbs @ cbs2)))
          else Inr (s1, b1, cbs))"


text \<open>
  The two loops of \<^verbatim>\<open>OrderBook.try_trade\<close>, over the prices of the opposite side from the
  best one on (index \<open>len - 1\<close> down to \<open>0\<close>). A price of zero ends the walk, as does a
  price beyond the limit.
\<close>

fun try_trade_walk ::
  "(int \<rightharpoonup> int) \<Rightarrow> Side \<Rightarrow> int \<Rightarrow> int \<Rightarrow> int list \<Rightarrow> int \<Rightarrow> int \<Rightarrow> py_error + (int \<times> int)"
  where
  "try_trade_walk tv sd limit_price vol [] total_volume total_value =
     Inr (total_volume, total_value)"
| "try_trade_walk tv sd limit_price vol (p # ps) total_volume total_value =
     (if total_volume < vol \<and> p \<noteq> 0
         \<and> (if sd = SELL then p \<ge> limit_price else p \<le> limit_price) then
        (case tv p of
           None \<Rightarrow> Inl KeyError
         | Some available \<Rightarrow>
             let required = vol - total_volume;
                 weight = (if required \<le> available then required else available)
             in try_trade_walk tv sd limit_price vol ps (total_volume + weight)
                  (total_value + weight * p))
      else Inr (total_volume, total_value))"

text \<open>
  \<^verbatim>\<open>OrderBook.try_trade\<close>. The method assigns to locals only; the model takes the book
  and returns the pair, so the book is the same after the call.
\<close>

definition try_trade :: "OrderBook \<Rightarrow> Side \<Rightarrow> int \<Rightarrow> int \<Rightarrow> py_error + (int \<times> int)" where
  "try_trade b sd limit_price vol =
     (case (if sd = SELL
            then try_trade_walk (total_volumes b) SELL limit_price vol (rev (bid_prices b)) 0 0
            else try_trade_walk (total_volumes b) BUY limit_price vol
                   (map uminus (rev (ask_prices b))) 0 0) of
        Inl e \<Rightarrow> Inl e
      | Inr (total_volume, total_value) \<Rightarrow>
          Inr (total_volume, if total_volume > 0 then total_value div total_volume else 0))"

text \<open>
  The words of the specification for \<open>try_trade\<close>: the prices of the opposite side, best
  first; the cached volume of a level; a price no worse than the limit; and the greedy
  allocation of the requested volume over a list of levels (price, available), which
  yields (price, taken) for each.
\<close>

definition opposite_prices :: "OrderBook \<Rightarrow> Side \<Rightarrow> int list" where
  "opposite_prices b sd =
     (if sd = SELL then rev (bid_prices b) else map uminus (rev (ask_prices b)))"

definition level_volume :: "OrderBook \<Rightarrow> int \<Rightarrow> int" where
  "level_volume b p = (case total_volumes b p of None \<Rightarrow> 0 | Some v \<Rightarrow> v)"

definition within_limit :: "Side \<Rightarrow> int \<Rightarrow> int \<Rightarrow> bool" where
  "within_limit sd limit_price p = (if sd = SELL then p \<ge> limit_price else p \<le> limit_price)"

fun take_levels :: "int \<Rightarrow> (int \<times> int) list \<Rightarrow> (int \<times> int) list" where
  "take_levels vol [] = []"
| "take_levels vol ((p, available) # ls) =
     (p, min vol available) # take_levels (vol - min vol available) ls"

text \<open>The levels \<open>try_trade\<close> reaches: up to the first price that is zero or beyond the limit.\<close>

definition reached_levels :: "OrderBook \<Rightarrow> Side \<Rightarrow> int \<Rightarrow> (int \<times> int) list" where
  "reached_levels b sd limit_price =
     map (\<lambda>p. (p, level_volume b p))
       (takeWhile (\<lambda>p. p \<noteq> 0 \<and> within_limit sd limit_price p) (opposite_prices b sd))"

definition volumes_cached :: "OrderBook \<Rightarrow> Side \<Rightarrow> bool" where
  "volumes_cached b sd =
     list_all (\<lambda>p. case total_volumes b p of None \<Rightarrow> False | Some v \<Rightarrow> 0 \<le> v)
       (opposite_prices b sd)"

text \<open>\<^verbatim>\<open>Order.__init__\<close>\<close>

definition new_Order ::
  "int \<Rightarrow> Instrument \<Rightarrow> Lifespan \<Rightarrow> Side \<Rightarrow> int \<Rightarrow> int \<Rightarrow> Listener option \<Rightarrow> Order" where
  "new_Order cid ins life sd p vol l =
     \<lparr>client_order_id = cid, instrument = ins, lifespan = life, listener = l, price = p,
      remaining_volume = vol, side = sd, total_fees = 0, volume = vol\<rparr>"








text \<open>
  The amount the specification has \<open>amend\<close> remove: the volume less the larger of the
  new volume and the volume already filled.
\<close>

definition amend_diff :: "Order \<Rightarrow> int \<Rightarrow> int" where
  "amend_diff ord new_volume =
     volume ord - max new_volume (volume ord - remaining_volume ord)"

text \<open>
  The level of a resting order is registered in the book: its price has a queue and a
  cached aggregate, and stands in the price list of the order's side.
\<close>

definition level_registered :: "OrderBook \<Rightarrow> Order \<Rightarrow> bool" where
  "level_registered b ord =
     (total_volumes b (price ord) \<noteq> None \<and> levels b (price ord) \<noteq> None
      \<and> (if side ord = SELL then - price ord \<in> set (ask_prices b)
          else price ord \<in> set (bid_prices b)))"

subsection \<open>competitor.py\<close>

text \<open>
  What a competitor writes to its execution channel, to the match events and to the score
  board is recorded in the order it is written. An error text is a byte string, two of
  them formatted with a number. Timestamps are left out of the records.
\<close>

datatype error_text = Text string | NotValidSide int | NotValidLifespan int

datatype out_message =
    SendError int error_text
  | SendHedgeFilled int int int
  | SendOrderFilled int int int
  | SendOrderStatus int int int int
  | CloseChannel

datatype match_event =
    MatchAmend string int int
  | MatchCancel string int int
  | MatchFill string int Instrument Side int int int
  | MatchHedge string int Instrument Side int int
  | MatchInsert string int Instrument Side int int Lifespan

datatype score_record = Breach string CompetitorAccount "int option" "int option"

text \<open>
  \<open>exec_connection\<close> is \<^verbatim>\<open>None\<close> once the connection is lost, and otherwise holds what
  has been written to the channel. \<open>orders\<close> maps a client order id to the order object.
\<close>

record Competitor =
  account :: CompetitorAccount
  active_volume :: int
  active_volume_limit :: int
  buy_prices :: "int list"
  exec_connection :: "out_message list option"
  last_client_order_id :: int
  match_events :: "match_event list"
  name :: string
  order_count_limit :: int
  orders :: "int \<rightharpoonup> nat"
  position_limit :: int
  score_board :: "score_record list"
  sell_prices :: "int list"
  status :: string
  tick_size :: int
  unhedged_etf_lots :: UnhedgedLots

text \<open>\<^verbatim>\<open>Competitor.__init__\<close>, with the account the factory creates.\<close>

definition new_CompetitorAccount :: "int \<Rightarrow> (rat \<Rightarrow> int) \<Rightarrow> CompetitorAccount" where
  "new_CompetitorAccount tick clamp =
     \<lparr>account_balance = 0, buy_volume = 0, etf_clamp = clamp, etf_position = 0,
      future_position = 0, max_drawdown = 0, max_profit = 0, profit_or_loss = 0,
      sell_volume = 0, acct_tick_size = tick, acct_total_fees = 0\<rparr>"

definition new_Competitor ::
  "string \<Rightarrow> CompetitorAccount \<Rightarrow> int \<Rightarrow> int \<Rightarrow> int \<Rightarrow> int \<Rightarrow> Competitor" where
  "new_Competitor nm acct pos_limit count_limit volume_limit tick =
     \<lparr>account = acct, active_volume = 0, active_volume_limit = volume_limit, buy_prices = [],
      exec_connection = Some [], last_client_order_id = - 1, match_events = [], name = nm,
      order_count_limit = count_limit, orders = Map.empty, position_limit = pos_limit,
      score_board = [], sell_prices = [], status = ''OK'', tick_size = tick,
      unhedged_etf_lots = new_UnhedgedLots\<rparr>"

text \<open>
  A method of the competitor that raises leaves the competitor as it stands at the raise:
  the error is returned together with that state. A write to the execution channel raises
  AttributeError on a lost connection, at the attribute access and so before anything is
  written.
\<close>

definition send :: "Competitor \<Rightarrow> out_message \<Rightarrow> (py_error \<times> Competitor) + Competitor" where
  "send c m =
     (case exec_connection c of
        None \<Rightarrow> Inl (AttributeError, c)
      | Some written \<Rightarrow> Inr (c\<lparr>exec_connection := Some (written @ [m])\<rparr>))"

definition send_error ::
  "Competitor \<Rightarrow> int \<Rightarrow> error_text \<Rightarrow> (py_error \<times> Competitor) + Competitor" where
  "send_error c coid message = send c (SendError coid message)"









text \<open>\<^verbatim>\<open>Competitor.on_order_amended\<close>, the callback of \<^verbatim>\<open>OrderBook.amend\<close>.\<close>

definition on_order_amended ::
  "Competitor \<Rightarrow> Order \<Rightarrow> int \<Rightarrow> (py_error \<times> Competitor) + Competitor" where
  "on_order_amended c ord volume_removed =
     (let c1 = (case exec_connection c of
                  None \<Rightarrow> c
                | Some written \<Rightarrow>
                    c\<lparr>exec_connection := Some (written
                        @ [SendOrderStatus (client_order_id ord)
                             (volume ord - remaining_volume ord) (remaining_volume ord)
                             (total_fees ord)])\<rparr>);
          c2 = c1\<lparr>match_events := match_events c1
                     @ [MatchAmend (name c1) (client_order_id ord) (- volume_removed)],
                  active_volume := active_volume c1 - volume_removed\<rparr>
      in if remaining_volume ord = 0 then
           (if orders c2 (client_order_id ord) = None then Inl (KeyError, c2)
            else
              let c3 = c2\<lparr>orders := (orders c2)(client_order_id ord := None)\<rparr>
              in if side ord = BUY then
                   (case pop_at (buy_prices c3)
                           (int (bisect (buy_prices c3) (price ord)) - 1) of
                      Inl e \<Rightarrow> Inl (e, c3)
                    | Inr xs \<Rightarrow> Inr (c3\<lparr>buy_prices := xs\<rparr>))
                 else
                   (case pop_at (sell_prices c3)
                           (int (bisect (sell_prices c3) (- price ord)) - 1) of
                      Inl e \<Rightarrow> Inl (e, c3)
                    | Inr xs \<Rightarrow> Inr (c3\<lparr>sell_prices := xs\<rparr>)))
         else Inr c2)"

text \<open>
  \<^verbatim>\<open>Competitor.on_amend_message\<close>. The book calls the listener of the amended order; the
  orders in \<open>orders\<close> were created with this competitor as their listener, and a callback
  for any other listener does not touch this competitor. The callback is the last
  statement of \<^verbatim>\<open>OrderBook.amend\<close>, so the book raises before the competitor changes.
\<close>

definition on_amend_message ::
  "Competitor \<Rightarrow> store \<Rightarrow> OrderBook \<Rightarrow> int \<Rightarrow> int
     \<Rightarrow> (py_error \<times> Competitor) + (Competitor \<times> store \<times> OrderBook)" where
  "on_amend_message c s etf_book coid vol =
     (if coid > last_client_order_id c then
        (case send_error c coid
                (Text ''out-of-order client_order_id in amend message'') of
           Inl ec \<Rightarrow> Inl ec
         | Inr c1 \<Rightarrow> Inr (c1, s, etf_book))
      else
        (case orders c coid of
           None \<Rightarrow> Inr (c, s, etf_book)
         | Some r \<Rightarrow>
            if vol > volume (s r) then
              (case send_error c coid
                      (Text ''amend operation would increase order volume'') of
                 Inl ec \<Rightarrow> Inl ec
               | Inr c1 \<Rightarrow> Inr (c1, s, etf_book))
            else
              (case amend s etf_book r vol of
                 Inl e \<Rightarrow> Inl (e, c)
               | Inr (s', b', cbs) \<Rightarrow>
                  (case cbs of
                     [OrderAmended l r' volume_removed] \<Rightarrow>
                       if l = CompetitorListener (name c) then
                         (case on_order_amended c (s' r') volume_removed of
                            Inl ec \<Rightarrow> Inl ec
                          | Inr c1 \<Rightarrow> Inr (c1, s', b'))
                       else Inr (c, s', b')
                   | _ \<Rightarrow> Inr (c, s', b')))))"

text \<open>The error messages a competitor has been sent, in order.\<close>

fun is_error_message :: "out_message \<Rightarrow> bool" where
  "is_error_message (SendError coid message) = True"
| "is_error_message m = False"

definition errors_sent :: "Competitor \<Rightarrow> out_message list" where
  "errors_sent c =
     (case exec_connection c of None \<Rightarrow> [] | Some written \<Rightarrow> filter is_error_message written)"





subsection \<open>Example states\<close>

text \<open>
  An account that bought ten ETF lots for 1000000, with a tick size of 100 and an ETF clamp
  of \<open>2\<^sup>-\<^sup>9\<close>, about 0.2 per cent, whose double product with a price is exact.
\<close>

definition acct0 :: CompetitorAccount where
  "acct0 = \<lparr>account_balance = - 1000000, buy_volume = 10, etf_clamp = (\<lambda>x. py_round (x / 512)),
     etf_position = 10, future_position = 0, max_drawdown = 0, max_profit = 0,
     profit_or_loss = 0, sell_volume = 0, acct_tick_size = 100, acct_total_fees = 0\<rparr>"

text \<open>
  A Future book with asks of 5 lots at price 0 and 5 lots at 100, and the book of
  scenario S4: asks of 10 lots at 10000 and 5 lots at 10100.
\<close>

definition zero_ask_book :: OrderBook where
  "zero_ask_book = (new_OrderBook FUTURE (\<lambda>n. 0) (\<lambda>n. 0))
     \<lparr>ask_prices := [- 100, 0],
      levels := [0 \<mapsto> [0], 100 \<mapsto> [1]],
      total_volumes := [0 \<mapsto> 5, 100 \<mapsto> 5]\<rparr>"

definition s4_book :: OrderBook where
  "s4_book = (new_OrderBook FUTURE (\<lambda>n. 0) (\<lambda>n. 0))
     \<lparr>ask_prices := [- 10100, - 10000],
      levels := [10000 \<mapsto> [0], 10100 \<mapsto> [1]],
      total_volumes := [10000 \<mapsto> 10, 10100 \<mapsto> 5]\<rparr>"

text \<open>
  Scenario S1: an empty ETF book with a maker fee rate of \<open>-2\<^sup>-\<^sup>1\<^sup>3\<close> (a rebate) and a taker
  fee rate of \<open>2\<^sup>-\<^sup>1\<^sup>2\<close>, about -0.012 and 0.024 per cent; for a power of two the double
  product with an integer below \<open>2\<^sup>5\<^sup>3\<close> is exact, so \<^verbatim>\<open>round(n * rate)\<close> is
  \<open>py_round\<close> of the exact quotient. Order 0 is A's BUY 5 at 10000, order 1 is B's SELL 3
  at 9900, both good for day. \<open>s1_book_A\<close> is the book after A's order has been placed.
\<close>

definition s1_store :: store where
  "s1_store = (\<lambda>_. new_Order 0 ETF GOOD_FOR_DAY BUY 0 0 None)
     (0 := new_Order 1 ETF GOOD_FOR_DAY BUY 10000 5 (Some (CompetitorListener ''A'')),
      1 := new_Order 1 ETF GOOD_FOR_DAY SELL 9900 3 (Some (CompetitorListener ''B'')))"

definition s1_book :: OrderBook where
  "s1_book = new_OrderBook ETF (\<lambda>n. py_round (- of_int n / 8192))
     (\<lambda>n. py_round (of_int n / 4096))"

definition s1_book_A :: OrderBook where
  "s1_book_A = s1_book\<lparr>bid_prices := [10000], levels := [10000 \<mapsto> [0]],
      total_volumes := [10000 \<mapsto> 5]\<rparr>"



text \<open>
  The store and the book at the end of scenario S1: A's order has 3 of its 5 lots filled.
\<close>

definition s1_store_B :: store where
  "s1_store_B = s1_store
     (0 := (s1_store 0)\<lparr>remaining_volume := 2, total_fees := - 4\<rparr>,
      1 := (s1_store 1)\<lparr>remaining_volume := 0, total_fees := 7\<rparr>)"

definition s1_book_B :: OrderBook where
  "s1_book_B = s1_book_A\<lparr>bid_ticks := [10000 \<mapsto> 3], last_traded_price := Some 10000,
      total_volumes := [10000 \<mapsto> 2]\<rparr>"

text \<open>
  Competitor A after its order 1 (BUY 5 at 10000, object 0 of the store) has been
  inserted; a Future book with a bid of 10 lots at 9900 under the asks of scenario S4 and
  a last traded price of 10000; and a Future book whose only trade crossed at price 0,
  with the two market orders that produce it. \<open>compZ\<close> is Competitor A with an account
  whose tick size is 0.
\<close>

definition compA :: Competitor where
  "compA = (new_Competitor ''A'' (new_CompetitorAccount 100 (\<lambda>x. py_round (x / 512))) 100 10 200 100)
     \<lparr>active_volume := 5, buy_prices := [10000], last_client_order_id := 1,
      orders := [1 \<mapsto> 0]\<rparr>"



definition zero_traded_book :: OrderBook where
  "zero_traded_book = (new_OrderBook FUTURE (\<lambda>n. 0) (\<lambda>n. 0))
     \<lparr>bid_ticks := [0 \<mapsto> 1], last_traded_price := Some 0\<rparr>"

definition zero_store :: store where
  "zero_store = (\<lambda>_. new_Order 0 FUTURE GOOD_FOR_DAY BUY 0 0 None)
     (0 := new_Order 1 FUTURE GOOD_FOR_DAY BUY 0 1 (Some MarketEventsListener),
      1 := new_Order 2 FUTURE GOOD_FOR_DAY SELL 0 1 (Some MarketEventsListener))"

section \<open>Verified properties\<close>

subsection \<open>Account\<close>

text \<open>
  C9. For every account with a non-zero tick size and every pair of integer mark prices,
  \<open>update\<close> returns normally; the clamp width is \<^verbatim>\<open>round(etf_clamp * future_price)\<close>,
  whatever integer the double arithmetic yields for it, less its remainder modulo the
  tick size; the profit or loss is the balance plus the Future position at the Future
  price plus the ETF position at the ETF price clipped to \<open>future_price \<plusminus> delta\<close>; with
  a non-negative width the clipped mark lies inside the band, so an ETF print outside the
  band moves the profit or loss no further than the band edge. Balance and positions are
  not changed.
\<close>

theorem update_marks_clamped_etf:
  assumes "acct_tick_size a \<noteq> 0"
  shows "\<exists>a'. update a (Some (of_int fp)) (Some (of_int ep)) = Inr a'
     \<and> profit_or_loss a' = of_int (account_balance a) + of_int (future_position a) * of_int fp
          + of_int (etf_position a)
            * clip (of_int ep) (of_int (fp - clamp_delta a (of_int fp)))
                (of_int (fp + clamp_delta a (of_int fp)))
     \<and> clamp_delta a (of_int fp) = etf_clamp a (of_int fp)
          - etf_clamp a (of_int fp) mod acct_tick_size a
     \<and> (0 \<le> clamp_delta a (of_int fp) \<longrightarrow>
          of_int (fp - clamp_delta a (of_int fp))
            \<le> clip (of_int ep) (of_int (fp - clamp_delta a (of_int fp)))
                (of_int (fp + clamp_delta a (of_int fp)))
          \<and> clip (of_int ep) (of_int (fp - clamp_delta a (of_int fp)))
                (of_int (fp + clamp_delta a (of_int fp)))
            \<le> of_int (fp + clamp_delta a (of_int fp)))
     \<and> account_balance a' = account_balance a
     \<and> future_position a' = future_position a
     \<and> etf_position a' = etf_position a"
  using assms by (simp add: update_def clip_def clamp_delta_def Let_def)

text \<open>
  Witness: ten ETF lots bought for 1000000, Future at 100000, a clamp of \<open>2\<^sup>-\<^sup>9\<close> (for which
  the double product is exact), tick 100, and an ETF print of 150000: the product rounds
  to 195, the width is 100 and the position is marked at 100100.
\<close>

theorem update_marks_clamped_etf_witness:
  "acct_tick_size acct0 \<noteq> 0 \<and> 0 \<le> clamp_delta acct0 100000
   \<and> etf_clamp acct0 100000 = 195
   \<and> clamp_delta acct0 100000 = 100
   \<and> (\<exists>a'. update acct0 (Some 100000) (Some 150000) = Inr a' \<and> profit_or_loss a' = 1000)"
proof -
  have t: "acct_tick_size acct0 \<noteq> 0"
    by (simp add: acct0_def)
  have r: "etf_clamp acct0 100000 = 195"
    by code_simp
  have d: "clamp_delta acct0 100000 = 100"
    by code_simp
  from update_marks_clamped_etf [OF t, of 100000 150000] d obtain a' where
    u: "update acct0 (Some 100000) (Some 150000) = Inr a'"
    and p: "profit_or_loss a' = of_int (account_balance acct0)
          + of_int (future_position acct0) * 100000
          + of_int (etf_position acct0) * clip 150000 99900 100100"
    by auto
  have "profit_or_loss a' = 1000"
    unfolding p by (simp add: acct0_def clip_def)
  with t r d u show ?thesis by auto
qed

subsection \<open>Unhedged-lots monitor\<close>

text \<open>
  C7, as stated, fails: from a relative position of -15 with its timer pending, a delta
  of +30 lands on +15. The position never returns into the band, yet the pending timer is
  cancelled, and a new 60 second timer is started although the position was not inside the
  band before the call.
\<close>

theorem timer_restart_counterexample:
  "apply_position_delta
     \<lparr>relative_position = - 15, timer_handle = Some Pending, loop_calls = []\<rparr> 30
     = Inr \<lparr>relative_position = 15, timer_handle = Some Pending,
            loop_calls = [CancelTimer, CallLater 60]\<rparr>
   \<and> \<not> in_band (- 15) \<and> \<not> in_band 15"
  by (simp add: apply_position_delta_def cancel_timer_def start_timer_def in_band_def
      MAX_UNHEDGED_LOTS_def UNHEDGED_LOTS_TIME_LIMIT_def Let_def)

text \<open>
  C7, amended. In every reachable state the call returns normally and adds the delta to
  the relative position. It cancels the timer exactly when the old position is outside
  the band and the new one is inside it or beyond the opposite edge, and then starts a
  60 second timer exactly when the new position is outside the band and the old one was
  inside it or beyond the opposite edge. A delta that lands on exactly +10 or -10 is
  inside the band and starts no timer.
\<close>

theorem apply_position_delta_timer:
  assumes "handle_present u"
  shows "\<exists>u'. apply_position_delta u d = Inr u'
     \<and> relative_position u' = relative_position u + d
     \<and> handle_present u'
     \<and> loop_calls u' = loop_calls u
         @ (if \<not> in_band (relative_position u)
               \<and> (in_band (relative_position u + d)
                  \<or> crosses_band (relative_position u) (relative_position u + d))
            then [CancelTimer] else [])
         @ (if \<not> in_band (relative_position u + d)
               \<and> (in_band (relative_position u)
                  \<or> crosses_band (relative_position u) (relative_position u + d))
            then [CallLater 60] else [])"
  using assms
  by (cases "timer_handle u")
     (auto simp add: apply_position_delta_def cancel_timer_def start_timer_def in_band_def
      handle_present_def crosses_band_def MAX_UNHEDGED_LOTS_def UNHEDGED_LOTS_TIME_LIMIT_def
      Let_def)

text \<open>
  Witness: a fresh monitor moved to exactly +10 starts no timer, and one more lot starts
  it.
\<close>

theorem apply_position_delta_timer_witness:
  "handle_present new_UnhedgedLots
   \<and> (\<exists>u'. apply_position_delta new_UnhedgedLots 10 = Inr u' \<and> loop_calls u' = [])
   \<and> (\<exists>u'. apply_position_delta new_UnhedgedLots 11 = Inr u' \<and> loop_calls u' = [CallLater 60])"
proof -
  have h: "handle_present new_UnhedgedLots"
    by (simp add: handle_present_def new_UnhedgedLots_def in_band_def MAX_UNHEDGED_LOTS_def)
  have a: "\<exists>u'. apply_position_delta new_UnhedgedLots 10 = Inr u' \<and> loop_calls u' = []"
    using apply_position_delta_timer [OF h, of 10]
    by (auto simp add: new_UnhedgedLots_def in_band_def crosses_band_def MAX_UNHEDGED_LOTS_def)
  have b: "\<exists>u'. apply_position_delta new_UnhedgedLots 11 = Inr u'
             \<and> loop_calls u' = [CallLater 60]"
    using apply_position_delta_timer [OF h, of 11]
    by (auto simp add: new_UnhedgedLots_def in_band_def crosses_band_def MAX_UNHEDGED_LOTS_def)
  from h a b show ?thesis by blast
qed

subsection \<open>Order book: try\_trade\<close>

lemma take_levels_zero:
  "list_all (\<lambda>(p, a). 0 \<le> a) ls \<Longrightarrow>
     sum_list (map snd (take_levels 0 ls)) = 0
     \<and> sum_list (map (\<lambda>(p, w). w * p) (take_levels 0 ls)) = 0"
  by (induction ls) auto

lemma take_levels_sum:
  "0 \<le> vol \<Longrightarrow> list_all (\<lambda>(p, a). 0 \<le> a) ls \<Longrightarrow>
     sum_list (map snd (take_levels vol ls)) = min vol (sum_list (map snd ls))"
proof (induction ls arbitrary: vol)
  case Nil
  then show ?case by simp
next
  case (Cons x ls)
  obtain p a where x: "x = (p, a)" by (cases x)
  from Cons.prems x have a: "0 \<le> a" and ls: "list_all (\<lambda>(p, a). 0 \<le> a) ls" by auto
  have nn: "0 \<le> sum_list (map snd ls)"
    using ls by (induction ls) auto
  have "0 \<le> vol - min vol a" by simp
  from Cons.IH [OF this ls] x a nn Cons.prems(1) show ?case
    by (auto simp add: min_def)
qed

lemma try_trade_walk_eq:
  assumes "list_all (\<lambda>p. case tv p of None \<Rightarrow> False | Some v \<Rightarrow> 0 \<le> v) ps"
    and "total_volume \<le> vol"
  shows "try_trade_walk tv sd limit_price vol ps total_volume total_value =
     (let taken = take_levels (vol - total_volume)
            (map (\<lambda>p. (p, case tv p of None \<Rightarrow> 0 | Some v \<Rightarrow> v))
               (takeWhile (\<lambda>p. p \<noteq> 0 \<and> within_limit sd limit_price p) ps))
      in Inr (total_volume + sum_list (map snd taken),
              total_value + sum_list (map (\<lambda>(p, w). w * p) taken)))"
  using assms
proof (induction ps arbitrary: total_volume total_value)
  case Nil
  then show ?case by simp
next
  case (Cons p ps)
  from Cons.prems(1) obtain a where a: "tv p = Some a" "0 \<le> a"
    and ps: "list_all (\<lambda>p. case tv p of None \<Rightarrow> False | Some v \<Rightarrow> 0 \<le> v) ps"
    by (auto split: option.splits)
  show ?case
  proof (cases "p \<noteq> 0 \<and> within_limit sd limit_price p")
    case False
    then show ?thesis by (auto simp add: within_limit_def)
  next
    case ok: True
    show ?thesis
    proof (cases "total_volume < vol")
      case True
      let ?w = "min (vol - total_volume) a"
      have le: "total_volume + ?w \<le> vol" by simp
      have w: "(if vol - total_volume \<le> a then vol - total_volume else a) = ?w"
        by (simp add: min_def)
      have "try_trade_walk tv sd limit_price vol (p # ps) total_volume total_value
            = try_trade_walk tv sd limit_price vol ps (total_volume + ?w) (total_value + ?w * p)"
        using ok True a w by (simp add: within_limit_def Let_def)
      also note Cons.IH [OF ps le]
      finally show ?thesis using ok a
        by (simp add: Let_def algebra_simps)
    next
      case False
      with Cons.prems(2) have eq: "vol - total_volume = 0" by simp
      have "list_all (\<lambda>(p, a). 0 \<le> a)
              (map (\<lambda>p. (p, case tv p of None \<Rightarrow> 0 | Some v \<Rightarrow> v))
                 (takeWhile (\<lambda>p. p \<noteq> 0 \<and> within_limit sd limit_price p) (p # ps)))"
        using Cons.prems(1)
        by (auto simp add: list_all_iff split: option.splits dest: set_takeWhileD)
      from take_levels_zero [OF this] False show ?thesis
        unfolding eq by (simp add: Let_def)
    qed
  qed
qed


lemma takeWhile_eq_filter:
  "sorted_wrt (\<lambda>x y. P y \<longrightarrow> P x) xs \<Longrightarrow> takeWhile P xs = filter P xs"
proof (induction xs)
  case Nil
  then show ?case by simp
next
  case (Cons x xs)
  show ?case
  proof (cases "P x")
    case True
    with Cons show ?thesis by simp
  next
    case False
    with Cons.prems have "\<forall>y\<in>set xs. \<not> P y" by auto
    then have "filter P xs = []" by (simp add: filter_empty_conv)
    with False show ?thesis by simp
  qed
qed

lemma opposite_prices_monotone:
  assumes "sorted (bid_prices b)" and "sorted (ask_prices b)"
  shows "sorted_wrt (\<lambda>x y. within_limit sd limit_price y \<longrightarrow> within_limit sd limit_price x)
           (opposite_prices b sd)"
proof (cases sd)
  case SELL
  have "sorted_wrt (\<lambda>x y. y \<le> x) (rev (bid_prices b))"
    using assms(1) by (simp add: sorted_wrt_rev)
  then show ?thesis
    unfolding opposite_prices_def within_limit_def using SELL
    by (auto elim!: sorted_wrt_mono_rel [rotated])
next
  case BUY
  have "sorted_wrt (\<lambda>x y. y \<le> x) (rev (ask_prices b))"
    using assms(2) by (simp add: sorted_wrt_rev)
  then have "sorted_wrt (\<lambda>x y. x \<le> y) (map uminus (rev (ask_prices b)))"
    by (simp add: sorted_wrt_map)
  then show ?thesis
    unfolding opposite_prices_def within_limit_def using BUY
    by (auto elim!: sorted_wrt_mono_rel [rotated])
qed

text \<open>
  C3, as stated, fails: with asks resting at prices 0 and 100, a buy of 3 lots with limit
  200 fills nothing, although 10 lots rest at prices no worse than the limit. The walk
  treats a price of zero as the end of the side.
\<close>

theorem try_trade_zero_price_counterexample:
  "try_trade zero_ask_book BUY 200 3 = Inr (0, 0)
   \<and> min 3 (sum_list (map (level_volume zero_ask_book)
              (filter (within_limit BUY 200) (opposite_prices zero_ask_book BUY)))) = 3"
  by (simp add: try_trade_def zero_ask_book_def new_OrderBook_def level_volume_def
      within_limit_def opposite_prices_def)

text \<open>
  C3, amended. For a book whose opposite-side levels have a cached, non-negative volume
  and a requested volume that is not negative, \<open>try_trade\<close> returns normally. It walks
  the opposite side from the best price and stops at the first level whose price is zero
  or worse than the limit. The filled volume is the volume resting at the levels reached,
  capped at the requested volume; the average price is the floor of the sum of price
  times taken volume over the filled volume, and 0 when nothing is filled. When the price
  lists are sorted and no opposite level is priced 0, the levels reached are exactly the
  levels at prices no worse than the limit. The book is not changed: \<open>try_trade\<close> only
  reads it.
\<close>

theorem try_trade_fills:
  assumes "0 \<le> vol" and "volumes_cached b sd"
  shows "try_trade b sd limit_price vol =
     (let taken = take_levels vol (reached_levels b sd limit_price);
          filled = sum_list (map snd taken)
      in Inr (filled,
              if filled > 0 then sum_list (map (\<lambda>(p, w). w * p) taken) div filled else 0))
    \<and> sum_list (map snd (take_levels vol (reached_levels b sd limit_price)))
           = min vol (sum_list (map snd (reached_levels b sd limit_price)))
    \<and> (sorted (bid_prices b) \<and> sorted (ask_prices b) \<and> 0 \<notin> set (opposite_prices b sd) \<longrightarrow>
           map fst (reached_levels b sd limit_price)
             = filter (within_limit sd limit_price) (opposite_prices b sd))"
proof (intro conjI)
  have cached: "list_all (\<lambda>p. case total_volumes b p of None \<Rightarrow> False | Some v \<Rightarrow> 0 \<le> v)
                  (opposite_prices b sd)"
    using assms(2) by (simp add: volumes_cached_def)
  have walk: "try_trade_walk (total_volumes b) sd limit_price vol (opposite_prices b sd) 0 0 =
     (let taken = take_levels vol (reached_levels b sd limit_price)
      in Inr (sum_list (map snd taken), sum_list (map (\<lambda>(p, w). w * p) taken)))"
    using try_trade_walk_eq [OF cached, of 0 vol sd limit_price 0] assms(1)
    by (simp add: reached_levels_def level_volume_def [abs_def] Let_def)
  show "try_trade b sd limit_price vol =
     (let taken = take_levels vol (reached_levels b sd limit_price);
          filled = sum_list (map snd taken)
      in Inr (filled,
              if filled > 0 then sum_list (map (\<lambda>(p, w). w * p) taken) div filled else 0))"
  proof (cases sd)
    case SELL
    with walk show ?thesis
      by (simp add: try_trade_def opposite_prices_def Let_def)
  next
    case BUY
    with walk show ?thesis
      by (simp add: try_trade_def opposite_prices_def Let_def)
  qed
  have "list_all (\<lambda>(p, a). 0 \<le> a) (reached_levels b sd limit_price)"
    using cached
    by (auto simp add: reached_levels_def level_volume_def list_all_iff
        split: option.splits dest: set_takeWhileD)
  from take_levels_sum [OF assms(1) this]
  show "sum_list (map snd (take_levels vol (reached_levels b sd limit_price)))
           = min vol (sum_list (map snd (reached_levels b sd limit_price)))" .
  show "sorted (bid_prices b) \<and> sorted (ask_prices b) \<and> 0 \<notin> set (opposite_prices b sd) \<longrightarrow>
           map fst (reached_levels b sd limit_price)
             = filter (within_limit sd limit_price) (opposite_prices b sd)"
  proof (intro impI, elim conjE)
    assume so: "sorted (bid_prices b)" "sorted (ask_prices b)"
      and nz: "0 \<notin> set (opposite_prices b sd)"
    have "takeWhile (\<lambda>p. p \<noteq> 0 \<and> within_limit sd limit_price p) (opposite_prices b sd)
          = takeWhile (within_limit sd limit_price) (opposite_prices b sd)"
      using nz by (intro takeWhile_cong) auto
    also have "\<dots> = filter (within_limit sd limit_price) (opposite_prices b sd)"
      by (rule takeWhile_eq_filter) (rule opposite_prices_monotone [OF so])
    finally show "map fst (reached_levels b sd limit_price)
             = filter (within_limit sd limit_price) (opposite_prices b sd)"
      by (simp add: reached_levels_def comp_def)
  qed
qed

text \<open>
  Witness, scenario S4: asks of 10 lots at 10000 and 5 lots at 10100; a buy of 12 lots
  with limit 10200 fills 12 lots at an average of
  \<open>floor ((10 * 10000 + 2 * 10100) / 12) = 10016\<close>.
\<close>

theorem try_trade_fills_witness:
  "0 \<le> (12::int) \<and> volumes_cached s4_book BUY
   \<and> sorted (bid_prices s4_book) \<and> sorted (ask_prices s4_book)
   \<and> 0 \<notin> set (opposite_prices s4_book BUY)
   \<and> try_trade s4_book BUY 10200 12 = Inr (12, 10016)"
proof -
  have v: "0 \<le> (12::int)" by simp
  have c: "volumes_cached s4_book BUY"
    by (simp add: volumes_cached_def s4_book_def new_OrderBook_def opposite_prices_def)
  have r: "reached_levels s4_book BUY 10200 = [(10000, 10), (10100, 5)]"
    by (simp add: reached_levels_def s4_book_def new_OrderBook_def opposite_prices_def
        within_limit_def level_volume_def)
  have so: "sorted (bid_prices s4_book) \<and> sorted (ask_prices s4_book)
      \<and> 0 \<notin> set (opposite_prices s4_book BUY)"
    by (simp add: s4_book_def new_OrderBook_def opposite_prices_def)
  have "try_trade s4_book BUY 10200 12 = Inr (12, 10016)"
    using try_trade_fills [OF v c, of 10200] unfolding r by (simp add: Let_def)
  with v c so show ?thesis by simp
qed

subsection \<open>Order book: matching at a level\<close>
































subsection \<open>Order book: amend\<close>

lemma pop_at_bisect:
  "xs \<noteq> [] \<Longrightarrow> \<exists>ys. pop_at xs (int (bisect xs x) - 1) = Inr ys"
proof -
  assume ne: "xs \<noteq> []"
  have "bisect xs x \<le> length xs"
    by (simp add: bisect_def length_takeWhile_le)
  with ne show ?thesis
    by (auto simp add: pop_at_def Let_def)
qed

lemma remove_volume_from_level_ok:
  assumes "level_registered b ord"
  shows "\<exists>b'. remove_volume_from_level b (price ord) vol (side ord) = Inr b'
     \<and> level_volume b' (price ord) = level_volume b (price ord) - vol
     \<and> (\<forall>p. p \<noteq> price ord \<longrightarrow> total_volumes b' p = total_volumes b p)"
proof -
  from assms obtain t q where t: "total_volumes b (price ord) = Some t"
    and q: "levels b (price ord) = Some q"
    by (auto simp add: level_registered_def)
  show ?thesis
  proof (cases "t = vol")
    case False
    with t show ?thesis
      by (simp add: remove_volume_from_level_def level_volume_def)
  next
    case True
    show ?thesis
    proof (cases "side ord")
      case SELL
      with assms have "ask_prices b \<noteq> []" by (auto simp add: level_registered_def)
      from pop_at_bisect [OF this, of "- price ord"] obtain ys where
        "pop_at (ask_prices b) (int (bisect (ask_prices b) (- price ord)) - 1) = Inr ys" ..
      with True t q SELL show ?thesis
        by (simp add: remove_volume_from_level_def level_volume_def Let_def)
    next
      case BUY
      with assms have "bid_prices b \<noteq> []" by (auto simp add: level_registered_def)
      from pop_at_bisect [OF this, of "price ord"] obtain ys where
        "pop_at (bid_prices b) (int (bisect (bid_prices b) (price ord)) - 1) = Inr ys" ..
      with True t q BUY show ?thesis
        by (simp add: remove_volume_from_level_def level_volume_def Let_def)
    qed
  qed
qed

text \<open>The example state is the one the model reaches in scenario S1.\<close>

lemma s1_state_B:
  "(case insert_order s1_store s1_book_A 1 of
      Inl e \<Rightarrow> False
    | Inr (s, b, cbs) \<Rightarrow>
        s 0 = s1_store_B 0 \<and> s 1 = s1_store_B 1
        \<and> bid_prices b = bid_prices s1_book_B \<and> ask_prices b = ask_prices s1_book_B
        \<and> levels b 10000 = levels s1_book_B 10000
        \<and> total_volumes b 10000 = total_volumes s1_book_B 10000
        \<and> bid_ticks b 10000 = bid_ticks s1_book_B 10000
        \<and> last_traded_price b = last_traded_price s1_book_B)"
  by code_simp

text \<open>
  C4. For an order with remaining volume and a registered level, \<open>amend\<close> returns
  normally, takes \<open>volume - max(new_volume, fill_volume)\<close> off the aggregate of the
  order's level and off both the volume and the remaining volume of the order, and
  notifies the listener with that amount; other levels keep their aggregates. A new volume
  below the filled volume is clamped to it, so that the whole remaining volume is removed.
  With no remaining volume \<open>amend\<close> changes nothing and notifies nobody.
\<close>

theorem amend_removes_volume:
  "(0 < remaining_volume (s r) \<and> level_registered b (s r) \<longrightarrow>
      (\<exists>b'. amend s b r new_volume
           = Inr (s(r := (s r)\<lparr>volume := volume (s r) - amend_diff (s r) new_volume,
                              remaining_volume :=
                                remaining_volume (s r) - amend_diff (s r) new_volume\<rparr>),
                  b',
                  notify (s r) (\<lambda>l. OrderAmended l r (amend_diff (s r) new_volume)))
         \<and> level_volume b' (price (s r))
              = level_volume b (price (s r)) - amend_diff (s r) new_volume
         \<and> (\<forall>p. p \<noteq> price (s r) \<longrightarrow> total_volumes b' p = total_volumes b p))
      \<and> (new_volume < volume (s r) - remaining_volume (s r) \<longrightarrow>
            amend_diff (s r) new_volume = remaining_volume (s r)))
   \<and> (remaining_volume (s r) = 0 \<longrightarrow> amend s b r new_volume = Inr (s, b, []))"
proof (intro conjI impI)
  assume a: "0 < remaining_volume (s r) \<and> level_registered b (s r)"
  have d: "volume (s r) - (if new_volume < volume (s r) - remaining_volume (s r)
              then volume (s r) - remaining_volume (s r) else new_volume)
           = amend_diff (s r) new_volume"
    by (simp add: amend_diff_def max_def)
  from a remove_volume_from_level_ok [of b "s r" "amend_diff (s r) new_volume"]
  obtain b' where b': "remove_volume_from_level b (price (s r)) (amend_diff (s r) new_volume)
                         (side (s r)) = Inr b'"
    and lv: "level_volume b' (price (s r))
              = level_volume b (price (s r)) - amend_diff (s r) new_volume"
    and oth: "\<forall>p. p \<noteq> price (s r) \<longrightarrow> total_volumes b' p = total_volumes b p"
    by blast
  have "amend s b r new_volume
           = Inr (s(r := (s r)\<lparr>volume := volume (s r) - amend_diff (s r) new_volume,
                              remaining_volume :=
                                remaining_volume (s r) - amend_diff (s r) new_volume\<rparr>),
                  b',
                  notify (s r) (\<lambda>l. OrderAmended l r (amend_diff (s r) new_volume)))"
    using a b' by (simp add: amend_def Let_def d notify_def)
  with lv oth show "\<exists>b'. amend s b r new_volume
           = Inr (s(r := (s r)\<lparr>volume := volume (s r) - amend_diff (s r) new_volume,
                              remaining_volume :=
                                remaining_volume (s r) - amend_diff (s r) new_volume\<rparr>),
                  b',
                  notify (s r) (\<lambda>l. OrderAmended l r (amend_diff (s r) new_volume)))
         \<and> level_volume b' (price (s r))
              = level_volume b (price (s r)) - amend_diff (s r) new_volume
         \<and> (\<forall>p. p \<noteq> price (s r) \<longrightarrow> total_volumes b' p = total_volumes b p)"
    by blast
next
  assume "new_volume < volume (s r) - remaining_volume (s r)"
  then show "amend_diff (s r) new_volume = remaining_volume (s r)"
    by (simp add: amend_diff_def max_def)
next
  assume "remaining_volume (s r) = 0"
  then show "amend s b r new_volume = Inr (s, b, [])"
    by (simp add: amend_def Let_def)
qed

text \<open>
  Witness, on A's order after scenario S1 (volume 5, 3 filled, 2 remaining): a new volume
  of 4 removes 1 lot; a new volume of 1, below the 3 lots filled, removes the 2 remaining
  lots; and amending B's filled order is a no-op.
\<close>

theorem amend_removes_volume_witness:
  "0 < remaining_volume (s1_store_B 0) \<and> level_registered s1_book_B (s1_store_B 0)
   \<and> (1::int) < volume (s1_store_B 0) - remaining_volume (s1_store_B 0)
   \<and> remaining_volume (s1_store_B 1) = 0
   \<and> amend_diff (s1_store_B 0) 4 = 1
   \<and> (\<exists>b'. amend s1_store_B s1_book_B 0 4
          = Inr (s1_store_B(0 := (s1_store_B 0)\<lparr>volume := 4, remaining_volume := 1\<rparr>), b',
                 [OrderAmended (CompetitorListener ''A'') 0 1])
        \<and> level_volume b' 10000 = 1)
   \<and> amend_diff (s1_store_B 0) 1 = 2
   \<and> (\<exists>b'. amend s1_store_B s1_book_B 0 1
          = Inr (s1_store_B(0 := (s1_store_B 0)\<lparr>volume := 3, remaining_volume := 0\<rparr>), b',
                 [OrderAmended (CompetitorListener ''A'') 0 2])
        \<and> level_volume b' 10000 = 0)
   \<and> amend s1_store_B s1_book_B 1 0 = Inr (s1_store_B, s1_book_B, [])"
proof -
  have h1: "0 < remaining_volume (s1_store_B 0)"
    by (simp add: s1_store_B_def s1_store_def new_Order_def)
  have h2: "level_registered s1_book_B (s1_store_B 0)"
    by (simp add: level_registered_def s1_book_B_def s1_book_A_def s1_book_def
        new_OrderBook_def s1_store_B_def s1_store_def new_Order_def)
  have h3: "(1::int) < volume (s1_store_B 0) - remaining_volume (s1_store_B 0)"
    by (simp add: s1_store_B_def s1_store_def new_Order_def)
  have h4: "remaining_volume (s1_store_B 1) = 0"
    by (simp add: s1_store_B_def s1_store_def new_Order_def)
  have d4: "amend_diff (s1_store_B 0) 4 = 1" and d1: "amend_diff (s1_store_B 0) 1 = 2"
    by (simp_all add: amend_diff_def s1_store_B_def s1_store_def new_Order_def)
  have f: "volume (s1_store_B 0) = 5" "remaining_volume (s1_store_B 0) = 2"
    "price (s1_store_B 0) = 10000" "level_volume s1_book_B 10000 = 2"
    "notify (s1_store_B 0) cb = [cb (CompetitorListener ''A'')]" for cb
    by (simp_all add: s1_store_B_def s1_store_def new_Order_def level_volume_def s1_book_B_def
        notify_def)
  have a4: "\<exists>b'. amend s1_store_B s1_book_B 0 4
          = Inr (s1_store_B(0 := (s1_store_B 0)\<lparr>volume := 4, remaining_volume := 1\<rparr>), b',
                 [OrderAmended (CompetitorListener ''A'') 0 1])
        \<and> level_volume b' 10000 = 1"
    using amend_removes_volume [of s1_store_B 0 s1_book_B 4] h1 h2
    unfolding d4 f by auto
  have a1: "\<exists>b'. amend s1_store_B s1_book_B 0 1
          = Inr (s1_store_B(0 := (s1_store_B 0)\<lparr>volume := 3, remaining_volume := 0\<rparr>), b',
                 [OrderAmended (CompetitorListener ''A'') 0 2])
        \<and> level_volume b' 10000 = 0"
    using amend_removes_volume [of s1_store_B 0 s1_book_B 1] h1 h2
    unfolding d1 f by auto
  have a0: "amend s1_store_B s1_book_B 1 0 = Inr (s1_store_B, s1_book_B, [])"
    using amend_removes_volume [of s1_store_B 1 s1_book_B 0] h4 by blast
  from h1 h2 h3 h4 d4 a4 d1 a1 a0 show ?thesis by blast
qed

text \<open>
  C5, as stated, fails for a partly filled order: \<open>new_volume\<close> is the new total volume
  of the order, fills included. A's order after scenario S1 has volume 5 and 2 lots
  remaining; amended to 2 (its remaining volume) it loses both remaining lots, and its
  level and the bid price 10000 are deleted.
\<close>

theorem amend_to_remaining_counterexample:
  "remaining_volume (s1_store_B 0) = 2 \<and> volume (s1_store_B 0) = 5
   \<and> total_volumes s1_book_B 10000 = Some 2 \<and> bid_prices s1_book_B = [10000]
   \<and> (case amend s1_store_B s1_book_B 0 (remaining_volume (s1_store_B 0)) of
         Inl e \<Rightarrow> False
       | Inr (s', b', cbs) \<Rightarrow>
           remaining_volume (s' 0) = 0 \<and> volume (s' 0) = 3
           \<and> total_volumes b' 10000 = None \<and> bid_prices b' = []
           \<and> cbs = [OrderAmended (CompetitorListener ''A'') 0 2])"
  by code_simp

text \<open>
  C5, amended. Amending a live order to its current volume, which for an order without
  fills is its remaining volume, changes neither the order (volume, remaining volume,
  fees) nor the book (aggregate of the level, price lists); the listener is notified with
  a removed amount of 0.
\<close>

theorem amend_current_volume_noop:
  assumes "0 < remaining_volume (s r)" and "total_volumes b (price (s r)) = Some t" and "t \<noteq> 0"
  shows "amend s b r (volume (s r)) = Inr (s, b, notify (s r) (\<lambda>l. OrderAmended l r 0))"
proof -
  have d: "(if volume (s r) < volume (s r) - remaining_volume (s r)
              then volume (s r) - remaining_volume (s r) else volume (s r)) = volume (s r)"
    using assms(1) by simp
  have rv: "remove_volume_from_level b (price (s r)) 0 (side (s r)) = Inr b"
    using assms(2,3) by (simp add: remove_volume_from_level_def map_upd_triv)
  have st: "s(r := (s r)\<lparr>volume := volume (s r), remaining_volume := remaining_volume (s r)\<rparr>) = s"
    by simp
  show ?thesis
    using assms(1) by (simp add: amend_def Let_def d rv st notify_def)
qed


text \<open>
  Witness: A's order as placed in scenario S1, 5 lots and nothing filled, amended to its
  remaining volume.
\<close>

theorem amend_current_volume_noop_witness:
  "0 < remaining_volume (s1_store 0) \<and> total_volumes s1_book_A (price (s1_store 0)) = Some 5
   \<and> (5::int) \<noteq> 0 \<and> remaining_volume (s1_store 0) = volume (s1_store 0)
   \<and> amend s1_store s1_book_A 0 (remaining_volume (s1_store 0))
       = Inr (s1_store, s1_book_A, [OrderAmended (CompetitorListener ''A'') 0 0])"
proof -
  have h1: "0 < remaining_volume (s1_store 0)"
    by (simp add: s1_store_def new_Order_def)
  have h2: "total_volumes s1_book_A (price (s1_store 0)) = Some 5"
    by (simp add: s1_store_def new_Order_def s1_book_A_def)
  have h3: "(5::int) \<noteq> 0" by simp
  have e: "remaining_volume (s1_store 0) = volume (s1_store 0)"
    by (simp add: s1_store_def new_Order_def)
  have n: "notify (s1_store 0) (\<lambda>l. OrderAmended l 0 0)
            = [OrderAmended (CompetitorListener ''A'') 0 0]"
    by (simp add: notify_def s1_store_def new_Order_def)
  from amend_current_volume_noop [of s1_store 0 s1_book_A 5, OF h1 h2 h3] h1 h2 h3 e n
  show ?thesis
    by simp
qed

subsection \<open>Competitor\<close>





















text \<open>A trade at price 0 leaves the Future book with a last traded price of 0.\<close>

lemma zero_traded_book_reached:
  "(case insert_order zero_store (new_OrderBook FUTURE (\<lambda>n. 0) (\<lambda>n. 0)) 0 of
      Inl e \<Rightarrow> False
    | Inr (s1, b1, cbs1) \<Rightarrow>
       (case insert_order s1 b1 1 of
          Inl e \<Rightarrow> False
        | Inr (s2, b2, cbs2) \<Rightarrow>
            last_traded_price b2 = last_traded_price zero_traded_book
            \<and> bid_prices b2 = bid_prices zero_traded_book
            \<and> ask_prices b2 = ask_prices zero_traded_book))"
  by code_simp




text \<open>
  C6, as stated, fails: an amend request for an id that is not above the last one seen
  and names no live order is dropped without a reply. Competitor A has seen id 1 and its
  only live order is 1; an amend of id 0 leaves the channel empty.
\<close>

theorem amend_unknown_target_counterexample:
  "0 \<le> last_client_order_id compA \<and> orders compA 0 = None
   \<and> exec_connection compA = Some []
   \<and> (case on_amend_message compA s1_store_B s1_book_B 0 1 of
         Inl ec \<Rightarrow> False
       | Inr (c', s', b') \<Rightarrow> exec_connection c' = Some [] \<and> status c' = ''OK'')"
  by code_simp

lemma on_order_amended_errors:
  "on_order_amended c ord vr = Inr c' \<or> on_order_amended c ord vr = Inl (e, c') \<Longrightarrow>
     errors_sent c' = errors_sent c"
  by (auto simp add: on_order_amended_def errors_sent_def Let_def
      split: if_splits option.splits sum.splits)

text \<open>
  C6, amended. An amend request whose id is not above the last one seen and which targets
  no live order of the competitor is ignored: nothing is sent and nothing changes. An
  error message carrying the id is sent when the id is above the last one seen, and when
  the target exists and the new volume is above its volume; neither changes any other
  state, and on a lost connection either raises AttributeError with nothing changed. In
  the one case left, a target that exists and a new volume not above its volume, no error
  message is sent, whether the request returns or raises.
\<close>

theorem amend_unknown_target_ignored:
  "(coid \<le> last_client_order_id c \<and> orders c coid = None \<longrightarrow>
      on_amend_message c s b coid vol = Inr (c, s, b))
   \<and> (last_client_order_id c < coid \<and> exec_connection c = Some written \<longrightarrow>
      on_amend_message c s b coid vol
        = Inr (c\<lparr>exec_connection := Some (written
                   @ [SendError coid (Text ''out-of-order client_order_id in amend message'')])\<rparr>,
               s, b))
   \<and> (coid \<le> last_client_order_id c \<and> orders c coid = Some r \<and> volume (s r) < vol
        \<and> exec_connection c = Some written \<longrightarrow>
      on_amend_message c s b coid vol
        = Inr (c\<lparr>exec_connection := Some (written
                   @ [SendError coid (Text ''amend operation would increase order volume'')])\<rparr>,
               s, b))
   \<and> ((last_client_order_id c < coid
         \<or> (\<exists>r. orders c coid = Some r \<and> volume (s r) < vol))
        \<and> exec_connection c = None \<longrightarrow>
      on_amend_message c s b coid vol = Inl (AttributeError, c))
   \<and> (coid \<le> last_client_order_id c \<and> orders c coid = Some r \<and> vol \<le> volume (s r) \<longrightarrow>
      (case on_amend_message c s b coid vol of
         Inl (e, c') \<Rightarrow> errors_sent c' = errors_sent c
       | Inr (c', s', b') \<Rightarrow> errors_sent c' = errors_sent c))"
proof (intro conjI impI)
  assume a: "coid \<le> last_client_order_id c \<and> orders c coid = Some r \<and> vol \<le> volume (s r)"
  show "(case on_amend_message c s b coid vol of
         Inl (e, c') \<Rightarrow> errors_sent c' = errors_sent c
       | Inr (c', s', b') \<Rightarrow> errors_sent c' = errors_sent c)"
  proof (cases "amend s b r vol")
    case (Inl e)
    with a show ?thesis by (simp add: on_amend_message_def)
  next
    case (Inr res)
    then obtain s' b' cbs where res: "amend s b r vol = Inr (s', b', cbs)"
      by (cases res) auto
    show ?thesis
    proof (cases "\<exists>r' vr. cbs = [OrderAmended (CompetitorListener (name c)) r' vr]")
      case False
      with a res have "on_amend_message c s b coid vol = Inr (c, s', b')"
        by (auto simp add: on_amend_message_def split: list.splits callback.splits)
      then show ?thesis by simp
    next
      case True
      then obtain r' vr where cbs: "cbs = [OrderAmended (CompetitorListener (name c)) r' vr]"
        by blast
      show ?thesis
      proof (cases "on_order_amended c (s' r') vr")
        case (Inl ec)
        then obtain e c' where ec: "on_order_amended c (s' r') vr = Inl (e, c')"
          by (cases ec) auto
        with a res cbs have "on_amend_message c s b coid vol = Inl (e, c')"
          by (simp add: on_amend_message_def)
        with on_order_amended_errors [OF disjI2, OF ec] show ?thesis by simp
      next
        case (Inr c')
        with a res cbs have "on_amend_message c s b coid vol = Inr (c', s', b')"
          by (simp add: on_amend_message_def)
        with on_order_amended_errors [OF disjI1, OF Inr] show ?thesis by simp
      qed
    qed
  qed
qed (auto simp add: on_amend_message_def send_error_def send_def)

text \<open>
  Witness: Competitor A with order 1 of volume 5: amend requests for id 0 (ignored), for
  id 2 (out of order), for id 1 with volume 6 (would increase the volume), the same two on
  a lost connection, and for id 1 with volume 4, which amends the order and sends an order
  status but no error.
\<close>

theorem amend_unknown_target_ignored_witness:
  "0 \<le> last_client_order_id compA \<and> orders compA 0 = None
   \<and> on_amend_message compA s1_store_B s1_book_B 0 1 = Inr (compA, s1_store_B, s1_book_B)
   \<and> last_client_order_id compA < 2 \<and> exec_connection compA = Some []
   \<and> on_amend_message compA s1_store_B s1_book_B 2 1
       = Inr (compA\<lparr>exec_connection := Some
                 [SendError 2 (Text ''out-of-order client_order_id in amend message'')]\<rparr>,
              s1_store_B, s1_book_B)
   \<and> 1 \<le> last_client_order_id compA \<and> orders compA 1 = Some 0
   \<and> volume (s1_store_B 0) < 6
   \<and> on_amend_message compA s1_store_B s1_book_B 1 6
       = Inr (compA\<lparr>exec_connection := Some
                 [SendError 1 (Text ''amend operation would increase order volume'')]\<rparr>,
              s1_store_B, s1_book_B)
   \<and> exec_connection (compA\<lparr>exec_connection := None\<rparr>) = None
   \<and> on_amend_message (compA\<lparr>exec_connection := None\<rparr>) s1_store_B s1_book_B 2 1
       = Inl (AttributeError, compA\<lparr>exec_connection := None\<rparr>)
   \<and> 4 \<le> volume (s1_store_B 0)
   \<and> (\<exists>c' s' b'. on_amend_message compA s1_store_B s1_book_B 1 4 = Inr (c', s', b')
        \<and> errors_sent c' = [] \<and> exec_connection c' = Some [SendOrderStatus 1 3 1 (- 4)])"
proof -
  have h: "0 \<le> last_client_order_id compA" "orders compA 0 = None"
    "last_client_order_id compA < 2" "exec_connection compA = Some []"
    "1 \<le> last_client_order_id compA" "orders compA 1 = Some 0" "volume (s1_store_B 0) < 6"
    "4 \<le> volume (s1_store_B 0)"
    "exec_connection (compA\<lparr>exec_connection := None\<rparr>) = None"
    "last_client_order_id (compA\<lparr>exec_connection := None\<rparr>) < 2"
    by (simp_all add: compA_def new_Competitor_def s1_store_B_def s1_store_def new_Order_def)
  have es: "errors_sent compA = []"
    by (simp add: errors_sent_def h)
  note t = amend_unknown_target_ignored
  from t [where coid = 0 and c = compA and s = s1_store_B and b = s1_book_B and vol = 1] h
  have a: "on_amend_message compA s1_store_B s1_book_B 0 1 = Inr (compA, s1_store_B, s1_book_B)"
    by blast
  from t [where coid = 2 and c = compA and s = s1_store_B and b = s1_book_B and vol = 1
             and written = "[]"] h
  have b: "on_amend_message compA s1_store_B s1_book_B 2 1
       = Inr (compA\<lparr>exec_connection := Some
                 [SendError 2 (Text ''out-of-order client_order_id in amend message'')]\<rparr>,
              s1_store_B, s1_book_B)"
    by simp
  from t [where coid = 1 and c = compA and s = s1_store_B and b = s1_book_B and vol = 6
             and written = "[]" and r = 0] h
  have c: "on_amend_message compA s1_store_B s1_book_B 1 6
       = Inr (compA\<lparr>exec_connection := Some
                 [SendError 1 (Text ''amend operation would increase order volume'')]\<rparr>,
              s1_store_B, s1_book_B)"
    by simp
  from t [where coid = 2 and c = "compA\<lparr>exec_connection := None\<rparr>" and s = s1_store_B
             and b = s1_book_B and vol = 1] h
  have d: "on_amend_message (compA\<lparr>exec_connection := None\<rparr>) s1_store_B s1_book_B 2 1
       = Inl (AttributeError, compA\<lparr>exec_connection := None\<rparr>)"
    by blast
  have "(case on_amend_message compA s1_store_B s1_book_B 1 4 of
           Inl ec \<Rightarrow> False
         | Inr (c', s', b') \<Rightarrow> exec_connection c' = Some [SendOrderStatus 1 3 1 (- 4)])"
    by code_simp
  then obtain c' s' b' where
    f: "on_amend_message compA s1_store_B s1_book_B 1 4 = Inr (c', s', b')"
    and g: "exec_connection c' = Some [SendOrderStatus 1 3 1 (- 4)]"
    by (auto split: sum.splits)
  from t [where coid = 1 and c = compA and s = s1_store_B and b = s1_book_B and vol = 4
             and r = 0] h f es
  have "errors_sent c' = []"
    by simp
  with f g have e: "\<exists>c' s' b'. on_amend_message compA s1_store_B s1_book_B 1 4 = Inr (c', s', b')
        \<and> errors_sent c' = [] \<and> exec_connection c' = Some [SendOrderStatus 1 3 1 (- 4)]"
    by blast
  from h a b c d e show ?thesis by blast
qed

end
